theory Spec2Isabelle
  imports Main
begin

section \<open>csv2gexf: the schema-driven pipeline of \<open>lib/index.js\<close>\<close>

text \<open>
  The development embeds the later of the two revisions of \<open>lib/index.js\<close> (the one whose
  record loops start at index 0 and whose \<open>addEdges\<close> keeps the counter \<open>idi\<close>). The
  functions in which the earlier revision differs are embedded a second time, with the
  suffix \<open>_rev1\<close>; the properties below are about the later revision unless they
  name a function with that suffix.

  Conventions of the embedding:
  \<^item> a thrown exception is the \<open>Inl\<close> branch of a sum; a function that mutates an argument
    returns the mutated value;
  \<^item> a JavaScript object is the association list of its own properties, in the order of
    \<open>Object.keys\<close>;
  \<^item> a schema is taken by value (a list of elements) wherever the code only reads an
    element or overwrites a property with a constant; \<open>checkSchema\<close>, which copies one
    property of an element into another, is embedded a second time on references into a
    heap of element objects (\<open>checkSchema_ref\<close>), and the two agree on a valid schema in
    which no object that receives a default id is shared;
  \<^item> strings are sequences of ASCII characters;
  \<^item> the numbers produced by the built-in \<open>parseFloat\<close> and \<open>parseInt\<close> are kept
    symbolic.
\<close>

subsection \<open>Cell values, records, errors\<close>

text \<open>
  A cell is a string when it leaves the CSV parser. \<open>CFloat c\<close> stands for the number
  \<open>parseFloat(c)\<close>, \<open>CInt c\<close> for \<open>parseInt(c)\<close>, \<open>CUndef\<close> for \<open>undefined\<close>.
\<close>

datatype cell = CStr string | CBool bool | CFloat cell | CInt cell | CUndef

type_synonym row = "(string \<times> cell) list"

text \<open>
  The value handed to an assertion callback: a string cell, or a whole record object.
\<close>

datatype jsval = VStr string | VObj row

datatype error = Error string | TypeError | ReferenceError | Rejected string

definition object_keys :: "row \<Rightarrow> string list" where
  "object_keys r = map fst r"

text \<open>\<open>record[header]\<close>: a missing property reads as \<open>undefined\<close>.\<close>

definition prop_get :: "row \<Rightarrow> string \<Rightarrow> cell" where
  "prop_get r h = (case map_of r h of None \<Rightarrow> CUndef | Some v \<Rightarrow> v)"

text \<open>
  \<open>record[header] = v\<close>: an existing property keeps its place, a new one is appended.
  (JavaScript lists integer-like keys before all others; the embedding does not reorder a
  key it adds. Only the first record's keys are ever listed, before anything is written,
  and the objects the code builds are read below by key alone.)
\<close>

fun prop_set :: "row \<Rightarrow> string \<Rightarrow> cell \<Rightarrow> row" where
  "prop_set [] h v = [(h, v)]"
| "prop_set ((k, x) # r) h v = (if k = h then (k, v) # r else (k, x) # prop_set r h v)"

subsection \<open>Rendering inside template literals\<close>

definition digit :: "nat \<Rightarrow> char" where
  "digit d = ''0123456789'' ! d"

fun show_nat :: "nat \<Rightarrow> string" where
  "show_nat n = (if n < 10 then [digit n] else show_nat (n div 10) @ [digit (n mod 10)])"

declare show_nat.simps [simp del]

definition quoted :: "string \<Rightarrow> string" where
  "quoted s = [CHR 0x27] @ s @ [CHR 0x27]"

text \<open>An absent property renders as the text \<open>undefined\<close>.\<close>

definition show_opt :: "string option \<Rightarrow> string" where
  "show_opt v = (case v of None \<Rightarrow> ''undefined'' | Some s \<Rightarrow> s)"

subsection \<open>Schemas\<close>

text \<open>
  A structured schema element, with the four properties the code reads; \<open>None\<close> is
  \<open>undefined\<close>.
\<close>

record sobj =
  spec_target :: "string option"
  spec_id :: "string option"
  spec_title :: "string option"
  spec_type :: "string option"

text \<open>
  A schema element by what \<open>typeof\<close> says of it: a string, an object, \<open>null\<close> (whose
  \<open>typeof\<close> is \<open>object\<close> too), \<open>undefined\<close>, or another primitive (a number or a
  boolean) given by its rendering and its \<open>typeof\<close>.
\<close>

datatype spec = SStr string | SObj sobj | SNull | SPrim string string | SUndef

definition nodeStringSpecs :: "string list" where
  "nodeStringSpecs = [''id'', ''label'']"

definition edgeStringSpecs :: "string list" where
  "edgeStringSpecs = [''id'', ''label'', ''source'', ''target'', ''type'', ''weight'']"

definition attributeTypes :: "string list" where
  "attributeTypes = [''string'', ''integer'', ''float'', ''boolean'']"

definition nodeVizIds :: "string list" where
  "nodeVizIds = [''color'', ''size'', ''shape'']"

definition edgeVizIds :: "string list" where
  "edgeVizIds = [''color'', ''thickness'', ''shape'']"

text \<open>\<open>xs.indexOf(v) < 0\<close> for an array of strings and a property that may be absent.\<close>

definition indexOf_neg :: "string list \<Rightarrow> string option \<Rightarrow> bool" where
  "indexOf_neg xs v = (case v of None \<Rightarrow> True | Some s \<Rightarrow> s \<notin> set xs)"

subsection \<open>checkSchema\<close>

definition ctxt :: "bool \<Rightarrow> string" where
  "ctxt isNodeSchema = ''in the '' @ (if isNodeSchema then ''node'' else ''edge'') @ '' schema''"

text \<open>The body of the column loop of \<open>checkSchema\<close>, for one column.\<close>

fun checkSpec :: "bool \<Rightarrow> string \<Rightarrow> spec \<Rightarrow> error + spec" where
  "checkSpec isNodeSchema header (SStr s) =
     (if isNodeSchema \<and> s \<notin> set nodeStringSpecs then
        Inl (Error (''Unexpected node schema element '' @ quoted s @ '' '' @ ctxt isNodeSchema @ ''.''))
      else if \<not> isNodeSchema \<and> s \<notin> set edgeStringSpecs then
        Inl (Error (''Unexpected edge schema element '' @ quoted s @ '' '' @ ctxt isNodeSchema @ ''.''))
      else Inr (SStr s))"
| "checkSpec isNodeSchema header (SPrim v t) =
     Inl (Error (''A schema element must be either a string or an object, got '' @ quoted v
                 @ '' of type '' @ t @ '' '' @ ctxt isNodeSchema))"
| "checkSpec isNodeSchema header SUndef =
     Inl (Error (''A schema element must be either a string or an object, got '' @ quoted ''undefined''
                 @ '' of type undefined '' @ ctxt isNodeSchema))"
| "checkSpec isNodeSchema header SNull = Inl TypeError"
| "checkSpec isNodeSchema header (SObj ob) =
     (if spec_target ob = Some ''attributes'' then
        (let ob1 = (if spec_id ob = None then ob\<lparr>spec_id := Some header\<rparr> else ob);
             ob2 = (if spec_title ob1 = None then ob1\<lparr>spec_title := spec_id ob1\<rparr> else ob1)
         in if indexOf_neg attributeTypes (spec_type ob2) then
              Inl (Error (''Unexpected type '' @ quoted (show_opt (spec_type ob2))
                          @ '' in the '' @ quoted ''attributes'' @ '' schema element with id ''
                          @ quoted (show_opt (spec_id ob2)) @ '' '' @ ctxt isNodeSchema @ ''.''))
            else Inr (SObj ob2))
      else if spec_target ob = Some ''viz'' then
        (if isNodeSchema then
           (if indexOf_neg nodeVizIds (spec_id ob) then
              Inl (Error (''Unexpected id '' @ quoted (show_opt (spec_id ob)) @ '' for a ''
                          @ quoted ''viz'' @ '' element '' @ ctxt isNodeSchema @ ''.''))
            else Inr (SObj ob))
         else
           (if spec_id ob = None then
              Inl (Error (''The id is missing for a '' @ quoted ''viz'' @ '' element ''
                          @ ctxt isNodeSchema @ ''.''))
            else if indexOf_neg edgeVizIds (spec_id ob) then
              Inl (Error (''Unexpected id '' @ quoted (show_opt (spec_id ob)) @ '' for a ''
                          @ quoted ''viz'' @ '' element '' @ ctxt isNodeSchema @ ''.''))
            else Inr (SObj ob)))
      else Inl (Error (''Unexpected target '' @ quoted (show_opt (spec_target ob)) @ '' ''
                       @ ctxt isNodeSchema)))"

text \<open>
  The column loop \<open>for (coli = 0; coli < headers.length; coli++)\<close>, reading
  \<open>schema[coli]\<close> beside \<open>headers[coli]\<close>; past the end of the schema the element reads
  as \<open>undefined\<close>. Elements past the last header are left as they are.
\<close>

fun checkColumns :: "bool \<Rightarrow> string list \<Rightarrow> spec list \<Rightarrow> error + spec list" where
  "checkColumns isNodeSchema [] schema = Inr schema"
| "checkColumns isNodeSchema (h # hs) [] =
     (case checkSpec isNodeSchema h SUndef of Inl e \<Rightarrow> Inl e | Inr s \<Rightarrow> Inr [])"
| "checkColumns isNodeSchema (h # hs) (s # ss) =
     (case checkSpec isNodeSchema h s of
        Inl e \<Rightarrow> Inl e
      | Inr s' \<Rightarrow>
         (case checkColumns isNodeSchema hs ss of
            Inl e \<Rightarrow> Inl e
          | Inr ss' \<Rightarrow> Inr (s' # ss')))"

text \<open>
  \<open>checkSchema\<close> returns the schema as its in-place defaulting leaves it.
  \<open>Object.keys(records[0])\<close> throws a TypeError on an empty record set.
\<close>

definition checkSchema :: "row list \<Rightarrow> spec list \<Rightarrow> bool \<Rightarrow> error + spec list" where
  "checkSchema records schema isNodeSchema =
     (case records of
        [] \<Rightarrow> Inl TypeError
      | r0 # rest \<Rightarrow>
         (let headers = object_keys r0 in
          if length headers \<noteq> length schema then
            Inl (Error (''There are '' @ show_nat (length headers) @ '' columns and ''
                        @ show_nat (length schema) @ '' schema elements '' @ ctxt isNodeSchema
                        @ ''. These numbers should be equal.''))
          else if isNodeSchema \<and> SStr ''id'' \<notin> set schema then
            Inl (Error (''There is no '' @ quoted ''id'' @ '' '' @ ctxt isNodeSchema @ ''.''))
          else if \<not> isNodeSchema \<and> SStr ''source'' \<notin> set schema then
            Inl (Error (''There is no '' @ quoted ''source'' @ '' '' @ ctxt isNodeSchema @ ''.''))
          else if \<not> isNodeSchema \<and> SStr ''target'' \<notin> set schema then
            Inl (Error (''There is no '' @ quoted ''target'' @ '' '' @ ctxt isNodeSchema @ ''.''))
          else checkColumns isNodeSchema headers schema))"

subsection \<open>checkSchema on element objects that may be shared\<close>

text \<open>
  \<open>checkSchema\<close> fills the defaults by assigning to the element object itself. When one
  object stands at several positions of the schema array, every position sees what an
  earlier one assigned. To follow that, a schema array is a list of references: a string
  (or another primitive) is itself, an object is the address of its content in a heap.
  \<open>deref\<close> reads an element as the functions above take it.
\<close>

datatype sref = RStr string | RObj nat | RNull | RPrim string string | RUndef

type_synonym sheap = "nat \<Rightarrow> sobj"

fun deref :: "sheap \<Rightarrow> sref \<Rightarrow> spec" where
  "deref heap (RStr s) = SStr s"
| "deref heap (RObj a) = SObj (heap a)"
| "deref heap RNull = SNull"
| "deref heap (RPrim v t) = SPrim v t"
| "deref heap RUndef = SUndef"

text \<open>
  The body of the column loop on a reference: the body \<open>checkSpec\<close> runs on the element
  found there, and the object as the body leaves it is the new content of the address.
\<close>

definition checkSpec_ref :: "bool \<Rightarrow> string \<Rightarrow> sref \<Rightarrow> sheap \<Rightarrow> error + sheap" where
  "checkSpec_ref isNodeSchema header ref heap =
     (case checkSpec isNodeSchema header (deref heap ref) of
        Inl e \<Rightarrow> Inl e
      | Inr sp \<Rightarrow>
         (case ref of
            RObj a \<Rightarrow> (case sp of SObj ob \<Rightarrow> Inr (heap(a := ob)) | _ \<Rightarrow> Inr heap)
          | _ \<Rightarrow> Inr heap))"

text \<open>The column loop: the heap as one column leaves it is the heap the next one reads.\<close>

fun checkColumns_ref :: "bool \<Rightarrow> string list \<Rightarrow> sref list \<Rightarrow> sheap \<Rightarrow> error + sheap" where
  "checkColumns_ref isNodeSchema [] schema heap = Inr heap"
| "checkColumns_ref isNodeSchema (h # hs) [] heap = checkSpec_ref isNodeSchema h RUndef heap"
| "checkColumns_ref isNodeSchema (h # hs) (r # rs) heap =
     (case checkSpec_ref isNodeSchema h r heap of
        Inl e \<Rightarrow> Inl e
      | Inr heap' \<Rightarrow> checkColumns_ref isNodeSchema hs rs heap')"

text \<open>
  \<open>checkSchema\<close> with the same checks before the loop (\<open>schema.indexOf('id')\<close> finds a
  string element only); it returns the heap as the loop leaves it.
\<close>

definition checkSchema_ref :: "row list \<Rightarrow> sref list \<Rightarrow> sheap \<Rightarrow> bool \<Rightarrow> error + sheap" where
  "checkSchema_ref records schema heap isNodeSchema =
     (case records of
        [] \<Rightarrow> Inl TypeError
      | r0 # rest \<Rightarrow>
         (let headers = object_keys r0 in
          if length headers \<noteq> length schema then
            Inl (Error (''There are '' @ show_nat (length headers) @ '' columns and ''
                        @ show_nat (length schema) @ '' schema elements '' @ ctxt isNodeSchema
                        @ ''. These numbers should be equal.''))
          else if isNodeSchema \<and> RStr ''id'' \<notin> set schema then
            Inl (Error (''There is no '' @ quoted ''id'' @ '' '' @ ctxt isNodeSchema @ ''.''))
          else if \<not> isNodeSchema \<and> RStr ''source'' \<notin> set schema then
            Inl (Error (''There is no '' @ quoted ''source'' @ '' '' @ ctxt isNodeSchema @ ''.''))
          else if \<not> isNodeSchema \<and> RStr ''target'' \<notin> set schema then
            Inl (Error (''There is no '' @ quoted ''target'' @ '' '' @ ctxt isNodeSchema @ ''.''))
          else checkColumns_ref isNodeSchema headers schema heap))"


subsection \<open>parseValues\<close>

definition edgeTypes :: "string list" where
  "edgeTypes = [''directed'', ''undirected'', ''mutual'']"

definition nodeShapes :: "string list" where
  "nodeShapes = [''disc'', ''square'', ''triangle'', ''diamond'']"

definition edgeShapes :: "string list" where
  "edgeShapes = [''solid'', ''dotted'', ''dashed'', ''double'']"

text \<open>\<open>toUpperCase\<close> on ASCII text: the 26 small letters are replaced, all else is kept.\<close>

definition upper_table :: "(char \<times> char) list" where
  "upper_table = zip ''abcdefghijklmnopqrstuvwxyz'' ''ABCDEFGHIJKLMNOPQRSTUVWXYZ''"

definition upper :: "char \<Rightarrow> char" where
  "upper c = (case map_of upper_table c of None \<Rightarrow> c | Some u \<Rightarrow> u)"

definition toUpperCase :: "string \<Rightarrow> string" where
  "toUpperCase s = map upper s"

text \<open>
  The three parse functions handed to \<open>parseColumn\<close>. \<open>parseBoolean\<close> calls
  \<open>val.toUpperCase()\<close>, which only a string has: any other value throws a TypeError.
\<close>

definition parseFloat :: "cell \<Rightarrow> error + cell" where
  "parseFloat c = Inr (CFloat c)"

definition parseInt :: "cell \<Rightarrow> error + cell" where
  "parseInt c = Inr (CInt c)"

fun parseBoolean :: "cell \<Rightarrow> error + cell" where
  "parseBoolean (CStr val) = Inr (CBool (toUpperCase val = ''TRUE'' \<or> val = ''1''))"
| "parseBoolean c = Inl TypeError"

text \<open>\<open>parseColumn\<close>: every record, from index 0, has its cell replaced.\<close>

fun parseColumn :: "row list \<Rightarrow> string \<Rightarrow> (cell \<Rightarrow> error + cell) \<Rightarrow> error + row list" where
  "parseColumn [] header parseFn = Inr []"
| "parseColumn (r # rs) header parseFn =
     (case parseFn (prop_get r header) of
        Inl e \<Rightarrow> Inl e
      | Inr v \<Rightarrow>
         (case parseColumn rs header parseFn of
            Inl e \<Rightarrow> Inl e
          | Inr rs' \<Rightarrow> Inr (prop_set r header v # rs')))"

text \<open>
  \<open>assertColumn\<close> calls \<open>assertFn(records[reci])\<close>: the callback receives the record
  object, not the cell under \<open>header\<close>.
\<close>

fun assertColumn :: "row list \<Rightarrow> string \<Rightarrow> (jsval \<Rightarrow> error + unit) \<Rightarrow> error + unit" where
  "assertColumn [] header assertFn = Inr ()"
| "assertColumn (r # rs) header assertFn =
     (case assertFn (VObj r) of
        Inl e \<Rightarrow> Inl e
      | Inr u \<Rightarrow> assertColumn rs header assertFn)"

text \<open>
  \<open>xs.indexOf(value) < 0\<close> for an array of strings: \<open>indexOf\<close> compares with \<open>===\<close>,
  so an object is never found.
\<close>

definition indexOf_val_neg :: "string list \<Rightarrow> jsval \<Rightarrow> bool" where
  "indexOf_val_neg xs value = (case value of VStr s \<Rightarrow> s \<notin> set xs | VObj r \<Rightarrow> True)"

text \<open>
  Rendering \<open>${value}\<close> in a template literal. A record object renders as
  \<open>[object Object]\<close> through the inherited \<open>toString\<close>; a record with a column named
  \<open>toString\<close> has a cell in its place, which cannot be called, and rendering it throws a
  TypeError.
\<close>

definition show_val :: "jsval \<Rightarrow> error + string" where
  "show_val value =
     (case value of
        VStr s \<Rightarrow> Inr s
      | VObj r \<Rightarrow> (if ''toString'' \<in> set (object_keys r) then Inl TypeError
                   else Inr ''[object Object]''))"

text \<open>
  The three callbacks handed to \<open>assertColumn\<close>. Each message template renders
  \<open>${value}\<close> first. The templates of the first two then read the variable \<open>ctxt\<close>,
  which \<open>parseValues\<close> does not declare (it is local to \<open>checkSchema\<close>): building the
  message throws a ReferenceError before any \<open>Error\<close> exists. The third template does not
  read it.
\<close>

definition assertEdgeType :: "string \<Rightarrow> jsval \<Rightarrow> error + unit" where
  "assertEdgeType header value =
     (if indexOf_val_neg edgeTypes value then
        (case show_val value of Inl e \<Rightarrow> Inl e | Inr shown \<Rightarrow> Inl ReferenceError)
      else Inr ())"

definition assertNodeShape :: "string \<Rightarrow> jsval \<Rightarrow> error + unit" where
  "assertNodeShape header value =
     (if indexOf_val_neg nodeShapes value then
        (case show_val value of Inl e \<Rightarrow> Inl e | Inr shown \<Rightarrow> Inl ReferenceError)
      else Inr ())"

definition assertEdgeShape :: "string \<Rightarrow> jsval \<Rightarrow> error + unit" where
  "assertEdgeShape header value =
     (if indexOf_val_neg edgeShapes value then
        (case show_val value of
           Inl e \<Rightarrow> Inl e
         | Inr shown \<Rightarrow>
            Inl (Error (''Unexpected value '' @ quoted shown @ '' in column ''
                        @ quoted header @ ''.'')))
      else Inr ())"

text \<open>A string used as a condition is true unless it is empty.\<close>

definition truthy :: "string \<Rightarrow> bool" where
  "truthy s = (s \<noteq> [])"

text \<open>
  The body of the column loop of \<open>parseValues\<close>. For an element that is not a string the
  conditions are the assignments \<open>spec.target = 'attributes'\<close> and
  \<open>spec.target = 'viz'\<close>: each stores the string and has it as its value. Assigning a
  property on \<open>null\<close>, \<open>undefined\<close> or (in strict mode) a primitive throws a TypeError.
\<close>

fun parseSpec :: "bool \<Rightarrow> string \<Rightarrow> spec \<Rightarrow> row list \<Rightarrow> error + (row list \<times> spec)" where
  "parseSpec isNodeSchema header (SStr s) records =
     (if s = ''weight'' then
        (case parseColumn records header parseFloat of
           Inl e \<Rightarrow> Inl e | Inr rs \<Rightarrow> Inr (rs, SStr s))
      else if s = ''type'' then
        (case assertColumn records header (assertEdgeType header) of
           Inl e \<Rightarrow> Inl e | Inr u \<Rightarrow> Inr (records, SStr s))
      else Inr (records, SStr s))"
| "parseSpec isNodeSchema header (SObj ob) records =
     (let ob1 = ob\<lparr>spec_target := Some ''attributes''\<rparr> in
      if truthy ''attributes'' then
        (if spec_type ob1 = Some ''integer'' then
           (case parseColumn records header parseInt of
              Inl e \<Rightarrow> Inl e | Inr rs \<Rightarrow> Inr (rs, SObj ob1))
         else if spec_type ob1 = Some ''float'' then
           (case parseColumn records header parseFloat of
              Inl e \<Rightarrow> Inl e | Inr rs \<Rightarrow> Inr (rs, SObj ob1))
         else if spec_type ob1 = Some ''boolean'' then
           (case parseColumn records header parseBoolean of
              Inl e \<Rightarrow> Inl e | Inr rs \<Rightarrow> Inr (rs, SObj ob1))
         else Inr (records, SObj ob1))
      else
        (let ob2 = ob1\<lparr>spec_target := Some ''viz''\<rparr> in
         if truthy ''viz'' then
           (if isNodeSchema then
              (if spec_id ob2 = Some ''size'' then
                 (case parseColumn records header parseFloat of
                    Inl e \<Rightarrow> Inl e | Inr rs \<Rightarrow> Inr (rs, SObj ob2))
               else if spec_id ob2 = Some ''shape'' then
                 (case assertColumn records header (assertNodeShape header) of
                    Inl e \<Rightarrow> Inl e | Inr u \<Rightarrow> Inr (records, SObj ob2))
               else Inr (records, SObj ob2))
            else
              (if spec_id ob2 = Some ''size'' then
                 (case parseColumn records header parseFloat of
                    Inl e \<Rightarrow> Inl e | Inr rs \<Rightarrow> Inr (rs, SObj ob2))
               else if spec_id ob2 = Some ''shape'' then
                 (case assertColumn records header (assertEdgeShape header) of
                    Inl e \<Rightarrow> Inl e | Inr u \<Rightarrow> Inr (records, SObj ob2))
               else Inr (records, SObj ob2)))
         else Inr (records, SObj ob2)))"
| "parseSpec isNodeSchema header sp records = Inl TypeError"

text \<open>The column loop of \<open>parseValues\<close>; \<open>schema[coli]\<close> past the end is \<open>undefined\<close>.\<close>

fun parseColumns :: "bool \<Rightarrow> string list \<Rightarrow> spec list \<Rightarrow> row list \<Rightarrow> error + (row list \<times> spec list)" where
  "parseColumns isNodeSchema [] schema records = Inr (records, schema)"
| "parseColumns isNodeSchema (h # hs) [] records =
     (case parseSpec isNodeSchema h SUndef records of
        Inl e \<Rightarrow> Inl e | Inr p \<Rightarrow> Inr (fst p, []))"
| "parseColumns isNodeSchema (h # hs) (s # ss) records =
     (case parseSpec isNodeSchema h s records of
        Inl e \<Rightarrow> Inl e
      | Inr p \<Rightarrow>
         (case parseColumns isNodeSchema hs ss (fst p) of
            Inl e \<Rightarrow> Inl e
          | Inr q \<Rightarrow> Inr (fst q, snd p # snd q)))"

text \<open>
  \<open>parseValues\<close> returns the records and, beside them, the schema as the conditions of
  the loop body leave it.
\<close>

definition parseValues :: "row list \<Rightarrow> spec list \<Rightarrow> bool \<Rightarrow> error + (row list \<times> spec list)" where
  "parseValues records schema isNodeSchema =
     (case records of
        [] \<Rightarrow> Inl TypeError
      | r0 # rest \<Rightarrow> parseColumns isNodeSchema (object_keys r0) schema records)"

subsection \<open>deriveModel\<close>

record attr_model =
  model_id :: "string option"
  model_type :: "string option"
  model_title :: "string option"

text \<open>
  \<open>for (var spec of schema)\<close> visits every element. \<open>typeof null\<close> is \<open>object\<close>, so a
  \<open>null\<close> element reaches \<open>spec.target\<close> and throws a TypeError.
\<close>

fun deriveModel :: "spec list \<Rightarrow> error + attr_model list" where
  "deriveModel [] = Inr []"
| "deriveModel (SNull # ss) = Inl TypeError"
| "deriveModel (SObj ob # ss) =
     (case deriveModel ss of
        Inl e \<Rightarrow> Inl e
      | Inr model \<Rightarrow>
         (if spec_target ob = Some ''attributes'' then
            Inr (\<lparr>model_id = spec_id ob, model_type = spec_type ob, model_title = spec_title ob\<rparr> # model)
          else Inr model))"
| "deriveModel (sp # ss) = deriveModel ss"

subsection \<open>addNodes\<close>

record node =
  node_id :: cell
  node_label :: cell
  node_attributes :: "row option"
  node_viz :: "row option"

text \<open>
  The body of the column loop of \<open>addNodes\<close>. \<open>schema.target\<close> throws a TypeError on
  \<open>null\<close> and \<open>undefined\<close> and reads as \<open>undefined\<close> on another primitive. The key
  \<open>schema.id\<close> of the attribute (or viz) object is the rendering of the id.
\<close>

fun nodeColumn :: "spec \<Rightarrow> cell \<Rightarrow> node \<Rightarrow> error + node" where
  "nodeColumn (SStr s) value n =
     Inr (if s = ''id'' then n\<lparr>node_id := value\<rparr>
          else if s = ''label'' then n\<lparr>node_label := value\<rparr>
          else n)"
| "nodeColumn (SObj ob) value n =
     Inr (if spec_target ob = Some ''attributes'' then
            n\<lparr>node_attributes :=
                 Some (prop_set (case node_attributes n of None \<Rightarrow> [] | Some a \<Rightarrow> a)
                                (show_opt (spec_id ob)) value)\<rparr>
          else if spec_target ob = Some ''viz'' then
            n\<lparr>node_viz :=
                 Some (prop_set (case node_viz n of None \<Rightarrow> [] | Some a \<Rightarrow> a)
                                (show_opt (spec_id ob)) value)\<rparr>
          else n)"
| "nodeColumn (SPrim v t) value n = Inr n"
| "nodeColumn SNull value n = Inl TypeError"
| "nodeColumn SUndef value n = Inl TypeError"

fun nodeColumns :: "string list \<Rightarrow> spec list \<Rightarrow> row \<Rightarrow> node \<Rightarrow> error + node" where
  "nodeColumns [] schema record n = Inr n"
| "nodeColumns (h # hs) [] record n = nodeColumn SUndef (prop_get record h) n"
| "nodeColumns (h # hs) (s # ss) record n =
     (case nodeColumn s (prop_get record h) n of
        Inl e \<Rightarrow> Inl e
      | Inr n' \<Rightarrow> nodeColumns hs ss record n')"

text \<open>
  One pass of the record loop of \<open>addNodes\<close>, up to the call of \<open>gexfObj.addNode\<close>.
  The default \<open>node.label = id\<close> reads a variable \<open>id\<close> that is declared nowhere: it
  throws a ReferenceError.
\<close>

definition buildNode :: "string list \<Rightarrow> spec list \<Rightarrow> row \<Rightarrow> error + node" where
  "buildNode headers schema record =
     (case nodeColumns headers schema record
             \<lparr>node_id = CUndef, node_label = CUndef, node_attributes = None, node_viz = None\<rparr> of
        Inl e \<Rightarrow> Inl e
      | Inr n \<Rightarrow> (if node_label n = CUndef then Inl ReferenceError else Inr n))"

text \<open>
  The record loop. The document object of the gexf library is a value of type \<open>'d\<close>, and
  its method \<open>addNode\<close>, which may throw, the parameter \<open>addNode\<close>.
\<close>

fun addNodes_loop :: "('d \<Rightarrow> node \<Rightarrow> error + 'd) \<Rightarrow> string list \<Rightarrow> spec list \<Rightarrow> 'd \<Rightarrow> row list \<Rightarrow> error + 'd" where
  "addNodes_loop addNode headers schema gexfObj [] = Inr gexfObj"
| "addNodes_loop addNode headers schema gexfObj (r # rs) =
     (case buildNode headers schema r of
        Inl e \<Rightarrow> Inl e
      | Inr n \<Rightarrow>
         (case addNode gexfObj n of
            Inl e \<Rightarrow> Inl e
          | Inr g \<Rightarrow> addNodes_loop addNode headers schema g rs))"

definition addNodes :: "('d \<Rightarrow> node \<Rightarrow> error + 'd) \<Rightarrow> 'd \<Rightarrow> row list \<Rightarrow> spec list \<Rightarrow> error + 'd" where
  "addNodes addNode gexfObj records schema =
     (case records of
        [] \<Rightarrow> Inl TypeError
      | r0 # rest \<Rightarrow> addNodes_loop addNode (object_keys r0) schema gexfObj records)"

subsection \<open>addEdges\<close>

text \<open>
  \<open>type\<close>, \<open>weight\<close>, \<open>attributes\<close> and \<open>viz\<close> are absent from a fresh edge object;
  \<open>id\<close>, \<open>label\<close>, \<open>source\<close> and \<open>target\<close> are present and \<open>undefined\<close>.
\<close>

record edge =
  edge_id :: cell
  edge_label :: cell
  edge_source :: cell
  edge_target :: cell
  edge_type :: "cell option"
  edge_weight :: "cell option"
  edge_attributes :: "row option"
  edge_viz :: "row option"

fun edgeColumn :: "spec \<Rightarrow> cell \<Rightarrow> edge \<Rightarrow> error + edge" where
  "edgeColumn (SStr s) value e =
     Inr (if s = ''id'' then e\<lparr>edge_id := value\<rparr>
          else if s = ''label'' then e\<lparr>edge_label := value\<rparr>
          else if s = ''type'' then e\<lparr>edge_type := Some value\<rparr>
          else if s = ''source'' then e\<lparr>edge_source := value\<rparr>
          else if s = ''target'' then e\<lparr>edge_target := value\<rparr>
          else if s = ''weight'' then e\<lparr>edge_weight := Some value\<rparr>
          else e)"
| "edgeColumn (SObj ob) value e =
     Inr (if spec_target ob = Some ''attributes'' then
            e\<lparr>edge_attributes :=
                 Some (prop_set (case edge_attributes e of None \<Rightarrow> [] | Some a \<Rightarrow> a)
                                (show_opt (spec_id ob)) value)\<rparr>
          else if spec_target ob = Some ''viz'' then
            e\<lparr>edge_viz :=
                 Some (prop_set (case edge_viz e of None \<Rightarrow> [] | Some a \<Rightarrow> a)
                                (show_opt (spec_id ob)) value)\<rparr>
          else e)"
| "edgeColumn (SPrim v t) value e = Inr e"
| "edgeColumn SNull value e = Inl TypeError"
| "edgeColumn SUndef value e = Inl TypeError"

fun edgeColumns :: "string list \<Rightarrow> spec list \<Rightarrow> row \<Rightarrow> edge \<Rightarrow> error + edge" where
  "edgeColumns [] schema record e = Inr e"
| "edgeColumns (h # hs) [] record e = edgeColumn SUndef (prop_get record h) e"
| "edgeColumns (h # hs) (s # ss) record e =
     (case edgeColumn s (prop_get record h) e of
        Inl x \<Rightarrow> Inl x
      | Inr e' \<Rightarrow> edgeColumns hs ss record e')"

text \<open>
  One pass of the record loop of \<open>addEdges\<close>, up to the call of \<open>gexfObj.addEdge\<close>;
  it takes the counter \<open>idi\<close> and returns it as the pass leaves it.
\<close>

definition buildEdge :: "string list \<Rightarrow> spec list \<Rightarrow> row \<Rightarrow> nat \<Rightarrow> error + (edge \<times> nat)" where
  "buildEdge headers schema record idi =
     (case edgeColumns headers schema record
             \<lparr>edge_id = CUndef, edge_label = CUndef, edge_source = CUndef, edge_target = CUndef,
              edge_type = None, edge_weight = None, edge_attributes = None, edge_viz = None\<rparr> of
        Inl x \<Rightarrow> Inl x
      | Inr e \<Rightarrow>
         (let e1 = (if edge_id e = CUndef then e\<lparr>edge_id := CStr (''e'' @ show_nat idi)\<rparr> else e);
              idi1 = (if edge_id e = CUndef then idi + 1 else idi);
              e2 = (if edge_label e1 = CUndef then e1\<lparr>edge_label := edge_id e1\<rparr> else e1)
          in Inr (e2, idi1)))"

fun addEdges_loop :: "('d \<Rightarrow> edge \<Rightarrow> error + 'd) \<Rightarrow> string list \<Rightarrow> spec list \<Rightarrow> nat \<Rightarrow> 'd \<Rightarrow> row list \<Rightarrow> error + 'd" where
  "addEdges_loop addEdge headers schema idi gexfObj [] = Inr gexfObj"
| "addEdges_loop addEdge headers schema idi gexfObj (r # rs) =
     (case buildEdge headers schema r idi of
        Inl x \<Rightarrow> Inl x
      | Inr p \<Rightarrow>
         (case addEdge gexfObj (fst p) of
            Inl x \<Rightarrow> Inl x
          | Inr g \<Rightarrow> addEdges_loop addEdge headers schema (snd p) g rs))"

definition addEdges :: "('d \<Rightarrow> edge \<Rightarrow> error + 'd) \<Rightarrow> 'd \<Rightarrow> row list \<Rightarrow> spec list \<Rightarrow> error + 'd" where
  "addEdges addEdge gexfObj records schema =
     (case records of
        [] \<Rightarrow> Inl TypeError
      | r0 # rest \<Rightarrow> addEdges_loop addEdge (object_keys r0) schema 1 gexfObj records)"

text \<open>
  A document layer that accepts every entry and keeps the entries in the order received:
  with it \<open>addNodes\<close> and \<open>addEdges\<close> return the sequence of entries they emit.
\<close>

definition emit :: "'a list \<Rightarrow> 'a \<Rightarrow> error + 'a list" where
  "emit doc x = Inr (doc @ [x])"

text \<open>
  Handing a sequence of entries to a method of the document, in order, up to the first
  throw.
\<close>

fun feed :: "('d \<Rightarrow> 'a \<Rightarrow> error + 'd) \<Rightarrow> 'd \<Rightarrow> 'a list \<Rightarrow> error + 'd" where
  "feed add g [] = Inr g"
| "feed add g (x # xs) = (case add g x of Inl e \<Rightarrow> Inl e | Inr g' \<Rightarrow> feed add g' xs)"

subsection \<open>convert\<close>

text \<open>
  The collaborators outside the repository's own logic are the fields of an environment:
  the file system, the CSV parser, the gexf library, and the pretty printer \<open>formatXml\<close>
  applied to the serialized document. A textual failure of \<open>readFile\<close>, \<open>csv.parse\<close> or
  \<open>writeFile\<close> is \<open>Inl\<close> (or \<open>Some\<close>) of its rendering. \<open>'g\<close> is the type of the graph
  parameters, \<open>'o\<close> that of the parse options, \<open>'d\<close> that of the gexf document object.
\<close>

record ('g, 'o, 'd) env =
  path_resolve :: "string \<Rightarrow> string"
  fs_readFile :: "string \<Rightarrow> string + string"
  csv_parse :: "string \<Rightarrow> 'o \<Rightarrow> string + row list"
  gexf_create :: "'g \<Rightarrow> attr_model list \<Rightarrow> attr_model list \<Rightarrow> error + 'd"
  gexf_addNode :: "'d \<Rightarrow> node \<Rightarrow> error + 'd"
  gexf_addEdge :: "'d \<Rightarrow> edge \<Rightarrow> error + 'd"
  gexf_serialize :: "'d \<Rightarrow> error + string"
  formatXml :: "string \<Rightarrow> error + string"
  fs_writeFile :: "string \<Rightarrow> string \<Rightarrow> string option"

record 'o tableConfig =
  cfg_file :: string
  cfg_schema :: "spec list"
  cfg_parseOptions :: 'o

text \<open>\<open>cfg_saveAs = None\<close> is a \<open>saveAs\<close> that is \<open>undefined\<close> (or \<open>null\<close>).\<close>

record ('g, 'o) config =
  cfg_graphParams :: 'g
  cfg_nodes :: "'o tableConfig"
  cfg_edges :: "'o tableConfig"
  cfg_saveAs :: "string option"

text \<open>What the promise returned by \<open>convert\<close> resolves to.\<close>

datatype 'd resolved = Document 'd | Path string

text \<open>
  \<open>loadCSV\<close> resolves to the records; the schema of the configuration, mutated in place by
  \<open>checkSchema\<close> and \<open>parseValues\<close>, is returned beside them.
\<close>

definition loadCSV :: "('g, 'o, 'd) env \<Rightarrow> 'o tableConfig \<Rightarrow> bool \<Rightarrow> error + (row list \<times> spec list)" where
  "loadCSV env config isNodeSchema =
     (let file = path_resolve env (cfg_file config) in
      case fs_readFile env file of
        Inl err \<Rightarrow> Inl (Rejected (''Failed to read '' @ file @ ''. '' @ err))
      | Inr data \<Rightarrow>
         (case csv_parse env data (cfg_parseOptions config) of
            Inl err \<Rightarrow> Inl (Rejected (''Failed to parse the csv data in '' @ file @ ''. '' @ err))
          | Inr records \<Rightarrow>
             (case checkSchema records (cfg_schema config) isNodeSchema of
                Inl e \<Rightarrow> Inl e
              | Inr schema1 \<Rightarrow> parseValues records schema1 isNodeSchema)))"

definition createGexf :: "('g, 'o, 'd) env \<Rightarrow> row list \<Rightarrow> row list \<Rightarrow> 'g \<Rightarrow> spec list \<Rightarrow> spec list \<Rightarrow> error + 'd" where
  "createGexf env nodeRecords edgeRecords graphParams nodeSchema edgeSchema =
     (case deriveModel nodeSchema of
        Inl e \<Rightarrow> Inl e
      | Inr nodeModel \<Rightarrow>
     (case deriveModel edgeSchema of
        Inl e \<Rightarrow> Inl e
      | Inr edgeModel \<Rightarrow>
     (case gexf_create env graphParams nodeModel edgeModel of
        Inl e \<Rightarrow> Inl e
      | Inr gexfObj \<Rightarrow>
     (case addNodes (gexf_addNode env) gexfObj nodeRecords nodeSchema of
        Inl e \<Rightarrow> Inl e
      | Inr g1 \<Rightarrow> addEdges (gexf_addEdge env) g1 edgeRecords edgeSchema))))"

text \<open>
  \<open>saveGexf\<close> ends in \<open>resolve(gexfObj)\<close>. Its rejection message is a single-quoted
  string, so the text \<open>${err}\<close> stays as it is written.
\<close>

definition saveGexf :: "('g, 'o, 'd) env \<Rightarrow> 'd \<Rightarrow> string \<Rightarrow> error + 'd resolved" where
  "saveGexf env gexfObj path =
     (case gexf_serialize env gexfObj of
        Inl e \<Rightarrow> Inl e
      | Inr xml \<Rightarrow>
     (case formatXml env xml of
        Inl e \<Rightarrow> Inl e
      | Inr str \<Rightarrow>
     (case fs_writeFile env path str of
        Some err \<Rightarrow> Inl (Rejected (''Failed to save the Gexf file. ${err}''))
      | None \<Rightarrow> Inr (Document gexfObj))))"

definition convert :: "('g, 'o, 'd) env \<Rightarrow> ('g, 'o) config \<Rightarrow> error + 'd resolved" where
  "convert env config =
     (case loadCSV env (cfg_nodes config) True of
        Inl e \<Rightarrow> Inl e
      | Inr nodesLoaded \<Rightarrow>
     (case loadCSV env (cfg_edges config) False of
        Inl e \<Rightarrow> Inl e
      | Inr edgesLoaded \<Rightarrow>
     (case createGexf env (fst nodesLoaded) (fst edgesLoaded) (cfg_graphParams config)
                      (snd nodesLoaded) (snd edgesLoaded) of
        Inl e \<Rightarrow> Inl e
      | Inr gexfObj \<Rightarrow>
         (case cfg_saveAs config of
            Some path \<Rightarrow> saveGexf env gexfObj path
          | None \<Rightarrow> Inr (Document gexfObj)))))"

subsection \<open>The earlier revision\<close>

text \<open>
  In the earlier revision the four record loops start at \<open>reci = 1\<close>, and the default
  edge id is \<open>e${coli + 1}\<close>, read after the column loop has left \<open>coli\<close> at
  \<open>headers.length\<close>.
\<close>

definition parseColumn_rev1 :: "row list \<Rightarrow> string \<Rightarrow> (cell \<Rightarrow> error + cell) \<Rightarrow> error + row list" where
  "parseColumn_rev1 records header parseFn =
     (case records of
        [] \<Rightarrow> Inr []
      | r0 # rest \<Rightarrow>
         (case parseColumn rest header parseFn of
            Inl e \<Rightarrow> Inl e
          | Inr rs' \<Rightarrow> Inr (r0 # rs')))"

definition assertColumn_rev1 :: "row list \<Rightarrow> string \<Rightarrow> (jsval \<Rightarrow> error + unit) \<Rightarrow> error + unit" where
  "assertColumn_rev1 records header assertFn =
     (case records of [] \<Rightarrow> Inr () | r0 # rest \<Rightarrow> assertColumn rest header assertFn)"

definition addNodes_rev1 :: "('d \<Rightarrow> node \<Rightarrow> error + 'd) \<Rightarrow> 'd \<Rightarrow> row list \<Rightarrow> spec list \<Rightarrow> error + 'd" where
  "addNodes_rev1 addNode gexfObj records schema =
     (case records of
        [] \<Rightarrow> Inl TypeError
      | r0 # rest \<Rightarrow> addNodes_loop addNode (object_keys r0) schema gexfObj rest)"

definition buildEdge_rev1 :: "string list \<Rightarrow> spec list \<Rightarrow> row \<Rightarrow> error + edge" where
  "buildEdge_rev1 headers schema record =
     (case edgeColumns headers schema record
             \<lparr>edge_id = CUndef, edge_label = CUndef, edge_source = CUndef, edge_target = CUndef,
              edge_type = None, edge_weight = None, edge_attributes = None, edge_viz = None\<rparr> of
        Inl x \<Rightarrow> Inl x
      | Inr e \<Rightarrow>
         (let e1 = (if edge_id e = CUndef
                    then e\<lparr>edge_id := CStr (''e'' @ show_nat (length headers + 1))\<rparr> else e);
              e2 = (if edge_label e1 = CUndef then e1\<lparr>edge_label := edge_id e1\<rparr> else e1)
          in Inr e2))"

fun addEdges_loop_rev1 :: "('d \<Rightarrow> edge \<Rightarrow> error + 'd) \<Rightarrow> string list \<Rightarrow> spec list \<Rightarrow> 'd \<Rightarrow> row list \<Rightarrow> error + 'd" where
  "addEdges_loop_rev1 addEdge headers schema gexfObj [] = Inr gexfObj"
| "addEdges_loop_rev1 addEdge headers schema gexfObj (r # rs) =
     (case buildEdge_rev1 headers schema r of
        Inl x \<Rightarrow> Inl x
      | Inr e \<Rightarrow>
         (case addEdge gexfObj e of
            Inl x \<Rightarrow> Inl x
          | Inr g \<Rightarrow> addEdges_loop_rev1 addEdge headers schema g rs))"

definition addEdges_rev1 :: "('d \<Rightarrow> edge \<Rightarrow> error + 'd) \<Rightarrow> 'd \<Rightarrow> row list \<Rightarrow> spec list \<Rightarrow> error + 'd" where
  "addEdges_rev1 addEdge gexfObj records schema =
     (case records of
        [] \<Rightarrow> Inl TypeError
      | r0 # rest \<Rightarrow> addEdges_loop_rev1 addEdge (object_keys r0) schema gexfObj rest)"

subsection \<open>Validity of a schema, as specified\<close>

text \<open>
  A valid schema element in the words of the specification's data model: a marker of the
  table kind's vocabulary; or an \<open>attributes\<close> element whose \<open>type\<close> is one of the four
  attribute types; or a \<open>viz\<close> element whose \<open>id\<close> is in the vocabulary of the table kind.
\<close>

definition valid_element :: "bool \<Rightarrow> spec \<Rightarrow> bool" where
  "valid_element isNodeSchema sp =
     (case sp of
        SStr s \<Rightarrow> (if isNodeSchema then s \<in> {''id'', ''label''}
                   else s \<in> {''id'', ''type'', ''label'', ''source'', ''target'', ''weight''})
      | SObj ob \<Rightarrow>
          (spec_target ob = Some ''attributes''
             \<and> spec_type ob \<in> {Some ''string'', Some ''integer'', Some ''float'', Some ''boolean''})
          \<or> (spec_target ob = Some ''viz''
             \<and> (if isNodeSchema then spec_id ob \<in> {Some ''color'', Some ''size'', Some ''shape''}
                 else spec_id ob \<in> {Some ''color'', Some ''thickness'', Some ''shape''}))
      | _ \<Rightarrow> False)"

text \<open>A valid schema: the required markers are present and every element is valid.\<close>

definition valid_schema :: "bool \<Rightarrow> spec list \<Rightarrow> bool" where
  "valid_schema isNodeSchema schema =
     ((if isNodeSchema then SStr ''id'' \<in> set schema
       else SStr ''source'' \<in> set schema \<and> SStr ''target'' \<in> set schema)
      \<and> list_all (valid_element isNodeSchema) schema)"

text \<open>
  The defaults in the words of the specification: on an \<open>attributes\<close> element a missing
  \<open>id\<close> becomes the column header, and a missing \<open>title\<close> becomes that \<open>id\<close>; every other
  element stays as it is.
\<close>

definition fill_defaults :: "string \<Rightarrow> spec \<Rightarrow> spec" where
  "fill_defaults header sp =
     (case sp of
        SObj ob \<Rightarrow>
          (if spec_target ob = Some ''attributes'' then
             (let i = (case spec_id ob of None \<Rightarrow> header | Some x \<Rightarrow> x);
                  t = (case spec_title ob of None \<Rightarrow> i | Some x \<Rightarrow> x)
              in SObj (ob\<lparr>spec_id := Some i, spec_title := Some t\<rparr>))
           else sp)
      | _ \<Rightarrow> sp)"

text \<open>The same defaults, on the content of an element object.\<close>

definition fill_obj :: "string \<Rightarrow> sobj \<Rightarrow> sobj" where
  "fill_obj header ob =
     (if spec_target ob = Some ''attributes'' then
        (let i = (case spec_id ob of None \<Rightarrow> header | Some x \<Rightarrow> x);
             t = (case spec_title ob of None \<Rightarrow> i | Some x \<Rightarrow> x)
         in ob\<lparr>spec_id := Some i, spec_title := Some t\<rparr>)
      else ob)"

text \<open>
  No attribute element object that lacks an \<open>id\<close> stands at more than one position of
  the schema array.
\<close>

fun no_shared_default :: "sheap \<Rightarrow> sref list \<Rightarrow> bool" where
  "no_shared_default heap [] = True"
| "no_shared_default heap (r # rs) =
     ((case r of
         RObj a \<Rightarrow> RObj a \<in> set rs \<longrightarrow>
                     \<not> (spec_target (heap a) = Some ''attributes'' \<and> spec_id (heap a) = None)
       | _ \<Rightarrow> True)
      \<and> no_shared_default heap rs)"


subsection \<open>An environment for evaluation\<close>

text \<open>
  A stand-in environment and configuration on which \<open>convert\<close> can be evaluated: reading
  a file yields its name as data, the parser yields one node record and one edge record,
  the document is the pair of the lists of entries received, and writing succeeds.
\<close>

definition demo_env :: "(unit, unit, node list \<times> edge list) env" where
  "demo_env =
     \<lparr>path_resolve = (\<lambda>file. file),
      fs_readFile = (\<lambda>file. Inr file),
      csv_parse = (\<lambda>data opts.
         Inr (if data = ''nodes.csv''
              then [[(''name'', CStr ''n1''), (''text'', CStr ''Node One'')]]
              else [[(''from'', CStr ''n1''), (''to'', CStr ''n1'')]])),
      gexf_create = (\<lambda>params nodeModel edgeModel. Inr ([], [])),
      gexf_addNode = (\<lambda>doc n. Inr (fst doc @ [n], snd doc)),
      gexf_addEdge = (\<lambda>doc e. Inr (fst doc, snd doc @ [e])),
      gexf_serialize = (\<lambda>doc. Inr ''<gexf/>''),
      formatXml = (\<lambda>xml. Inr xml),
      fs_writeFile = (\<lambda>path str. None)\<rparr>"

definition demo_config :: "string option \<Rightarrow> (unit, unit) config" where
  "demo_config dest =
     \<lparr>cfg_graphParams = (),
      cfg_nodes = \<lparr>cfg_file = ''nodes.csv'', cfg_schema = [SStr ''id'', SStr ''label''], cfg_parseOptions = ()\<rparr>,
      cfg_edges = \<lparr>cfg_file = ''edges.csv'', cfg_schema = [SStr ''source'', SStr ''target''], cfg_parseOptions = ()\<rparr>,
      cfg_saveAs = dest\<rparr>"

section \<open>Properties\<close>

subsection \<open>Validation: column count and required markers\<close>

text \<open>
  Claim C8. For a non-empty record set whose first record has a number of headers
  different from the number of schema elements, \<open>checkSchema\<close> throws an \<open>Error\<close> whose
  message states both counts, for the node table as for the edge table.
\<close>

theorem checkSchema_length_mismatch:
  assumes "length (object_keys r0) \<noteq> length schema"
  shows "checkSchema (r0 # rest) schema isNodeSchema =
           Inl (Error (''There are '' @ show_nat (length (object_keys r0)) @ '' columns and ''
                       @ show_nat (length schema) @ '' schema elements in the ''
                       @ (if isNodeSchema then ''node'' else ''edge'')
                       @ '' schema. These numbers should be equal.''))"
  using assms by (simp add: checkSchema_def ctxt_def)

theorem checkSchema_length_mismatch_witness:
  "checkSchema [[(''a'', CStr ''1''), (''b'', CStr ''2''), (''c'', CStr ''3''),
                 (''d'', CStr ''4''), (''e'', CStr ''5'')]]
      [SStr ''id'', SStr ''label'', SStr ''x'', SStr ''y''] True
   = Inl (Error ''There are 5 columns and 4 schema elements in the node schema. These numbers should be equal.'')"
  using checkSchema_length_mismatch
          [of "[(''a'', CStr ''1''), (''b'', CStr ''2''), (''c'', CStr ''3''),
                (''d'', CStr ''4''), (''e'', CStr ''5'')]"
              "[SStr ''id'', SStr ''label'', SStr ''x'', SStr ''y'']" "[]" True]
  by (simp add: object_keys_def show_nat.simps digit_def)

text \<open>
  Claim C9. On a non-empty record set, \<open>checkSchema\<close> throws an \<open>Error\<close> for every node
  schema without the marker \<open>id\<close>, and for every edge schema that lacks the marker
  \<open>source\<close> or the marker \<open>target\<close>.
\<close>

theorem checkSchema_required_markers:
  assumes "records \<noteq> []"
  shows "(SStr ''id'' \<notin> set schema \<longrightarrow> (\<exists>msg. checkSchema records schema True = Inl (Error msg)))
       \<and> (SStr ''source'' \<notin> set schema \<or> SStr ''target'' \<notin> set schema
            \<longrightarrow> (\<exists>msg. checkSchema records schema False = Inl (Error msg)))"
  using assms by (cases records) (auto simp: checkSchema_def Let_def)

theorem checkSchema_required_markers_witness:
  "(\<exists>msg. checkSchema [[(''name'', CStr ''n1'')]] [SStr ''label''] True = Inl (Error msg))
   \<and> (\<exists>msg. checkSchema [[(''from'', CStr ''n1''), (''to'', CStr ''n2'')]]
               [SStr ''source'', SStr ''label''] False = Inl (Error msg))"
  using checkSchema_required_markers [of "[[(''name'', CStr ''n1'')]]" "[SStr ''label'']"]
        checkSchema_required_markers [of "[[(''from'', CStr ''n1''), (''to'', CStr ''n2'')]]"
                                         "[SStr ''source'', SStr ''label'']"]
  by simp

subsection \<open>Coercion of enumerated columns\<close>

lemmas parse_defs = parseValues_def object_keys_def truthy_def assertEdgeType_def
  assertNodeShape_def assertEdgeShape_def indexOf_val_neg_def show_val_def prop_get_def
  parseFloat_def parseInt_def

text \<open>
  A viz declaration that gives no \<open>type\<close> passes through the loop body with its records
  untouched, whatever its \<open>id\<close> and whatever the cells: no shape is ever asserted.
\<close>

lemma parseSpec_viz_unchecked:
  "spec_type ob = None \<Longrightarrow>
     parseSpec isNodeSchema header (SObj ob) records
       = Inr (records, SObj (ob\<lparr>spec_target := Some ''attributes''\<rparr>))"
  by (simp add: truthy_def)

text \<open>
  Claim C1 (evaluation at the failing input). An edge table with a viz column \<open>shape\<close>
  holding the cell \<open>hexagon\<close>, and a node table with the same, pass \<open>parseValues\<close>
  unchanged: the condition \<open>spec.target = 'attributes'\<close> is an assignment, always true, so
  the viz branch with the shape assertion is never entered; the element leaves with the
  target \<open>attributes\<close>.
\<close>

theorem parseValues_shape_not_checked:
  "parseValues [[(''source'', CStr ''n1''), (''target'', CStr ''n2''), (''shape'', CStr ''hexagon'')]]
               [SStr ''source'', SStr ''target'',
                SObj \<lparr>spec_target = Some ''viz'', spec_id = Some ''shape'', spec_title = None, spec_type = None\<rparr>]
               False
     = Inr ([[(''source'', CStr ''n1''), (''target'', CStr ''n2''), (''shape'', CStr ''hexagon'')]],
            [SStr ''source'', SStr ''target'',
             SObj \<lparr>spec_target = Some ''attributes'', spec_id = Some ''shape'', spec_title = None, spec_type = None\<rparr>])
   \<and> parseValues [[(''id'', CStr ''n1''), (''shape'', CStr ''hexagon'')]]
               [SStr ''id'',
                SObj \<lparr>spec_target = Some ''viz'', spec_id = Some ''shape'', spec_title = None, spec_type = None\<rparr>]
               True
     = Inr ([[(''id'', CStr ''n1''), (''shape'', CStr ''hexagon'')]],
            [SStr ''id'',
             SObj \<lparr>spec_target = Some ''attributes'', spec_id = Some ''shape'', spec_title = None, spec_type = None\<rparr>])"
  by (simp add: parse_defs)

text \<open>
  On a non-empty record set the marker \<open>type\<close> always throws: the callback is handed the
  record object, which is no member of \<open>edgeTypes\<close>, and its message template reads the
  undeclared \<open>ctxt\<close> (or fails before that, rendering a record with a column
  \<open>toString\<close>).
\<close>

lemma parseSpec_type_marker:
  "parseSpec isNodeSchema header (SStr ''type'') (r0 # rest)
     = Inl (if ''toString'' \<in> set (object_keys r0) then TypeError else ReferenceError)"
  by (simp add: assertEdgeType_def indexOf_val_neg_def show_val_def)

text \<open>
  Claim C6 (evaluation at the failing input). An edge table whose \<open>type\<close> column holds
  only \<open>directed\<close> does not pass \<open>parseValues\<close>: a ReferenceError is thrown.
\<close>

theorem parseValues_type_column_throws:
  "parseValues [[(''source'', CStr ''n1''), (''target'', CStr ''n2''), (''type'', CStr ''directed'')]]
               [SStr ''source'', SStr ''target'', SStr ''type''] False
     = Inl ReferenceError"
  by (simp add: parse_defs)

subsection \<open>Assembly of nodes\<close>

lemma nodeColumns_label_undefined:
  "SStr ''label'' \<notin> set schema \<Longrightarrow> nodeColumns headers schema r n = Inr n'
     \<Longrightarrow> node_label n' = node_label n"
proof (induction headers schema r n rule: nodeColumns.induct)
  case (3 h hs s ss r n)
  then show ?case
    by (cases s) (auto split: sum.splits if_splits)
qed auto

lemma buildNode_no_label:
  "SStr ''label'' \<notin> set schema \<Longrightarrow> \<exists>e. buildNode headers schema r = Inl e"
  by (auto simp: buildNode_def split: sum.splits dest: nodeColumns_label_undefined)

text \<open>
  Under a schema without the marker \<open>label\<close> no node is ever emitted: \<open>addNodes\<close> throws
  on the first record, whatever the document layer.
\<close>

lemma addNodes_no_label_fails:
  "SStr ''label'' \<notin> set schema \<Longrightarrow> \<exists>e. addNodes addNode gexfObj records schema = Inl e"
proof (cases records)
  case Nil
  then show ?thesis by (simp add: addNodes_def)
next
  case (Cons r0 rest)
  assume "SStr ''label'' \<notin> set schema"
  from buildNode_no_label [OF this] obtain e where "buildNode (object_keys r0) schema r0 = Inl e"
    by blast
  with Cons show ?thesis by (simp add: addNodes_def)
qed

text \<open>
  Claim C3 (evaluation at the failing input). One node record under the schema
  \<open>['id']\<close>: the default \<open>node.label = id\<close> throws a ReferenceError, and the node is
  not emitted.
\<close>

theorem addNodes_default_label_throws:
  "addNodes emit [] [[(''name'', CStr ''n1'')]] [SStr ''id''] = Inl ReferenceError"
  by (simp add: addNodes_def buildNode_def object_keys_def prop_get_def)

subsection \<open>Assembly of edges\<close>

lemma digit_inj:
  assumes "a < 10" "b < 10" "digit a = digit b"
  shows "a = b"
proof -
  have a: "a \<in> {0, 1, 2, 3, 4, 5, 6, 7, 8, 9}" using assms(1) by auto
  have b: "b \<in> {0, 1, 2, 3, 4, 5, 6, 7, 8, 9}" using assms(2) by auto
  from a b assms(3) show ?thesis
    by (auto simp: digit_def)
qed

lemma show_nat_nonempty [simp]: "show_nat n \<noteq> []" "[] \<noteq> show_nat n"
  by (subst show_nat.simps, simp)+

lemma show_nat_inj: "show_nat m = show_nat n \<Longrightarrow> m = n"
proof (induction m arbitrary: n rule: show_nat.induct)
  case (1 m)
  show ?case
  proof (cases "m < 10")
    case mlt: True
    show ?thesis
    proof (cases "n < 10")
      case True
      with mlt "1.prems" show ?thesis
        by (simp add: show_nat.simps [of m] show_nat.simps [of n] digit_inj)
    next
      case False
      with mlt "1.prems" show ?thesis
        by (simp add: show_nat.simps [of m] show_nat.simps [of n])
    qed
  next
    case mge: False
    show ?thesis
    proof (cases "n < 10")
      case True
      with mge "1.prems" show ?thesis
        by (simp add: show_nat.simps [of m] show_nat.simps [of n])
    next
      case False
      with mge "1.prems" have eq: "show_nat (m div 10) = show_nat (n div 10)"
        and d: "digit (m mod 10) = digit (n mod 10)"
        by (simp_all add: show_nat.simps [of m] show_nat.simps [of n])
      from "1.IH" [OF mge eq] have q: "m div 10 = n div 10" .
      from d have r: "m mod 10 = n mod 10" by (intro digit_inj) simp_all
      from q r show ?thesis by (metis div_mult_mod_eq)
    qed
  qed
qed


lemma edgeColumn_total:
  "s \<noteq> SNull \<Longrightarrow> s \<noteq> SUndef \<Longrightarrow> \<exists>e'. edgeColumn s v e = Inr e'"
  by (cases s) auto

lemma edgeColumn_id:
  "SStr ''id'' \<noteq> s \<Longrightarrow> edgeColumn s v e = Inr e' \<Longrightarrow> edge_id e' = edge_id e"
  by (cases s) (auto split: if_splits)

lemma edgeColumn_label:
  "SStr ''label'' \<noteq> s \<Longrightarrow> edgeColumn s v e = Inr e' \<Longrightarrow> edge_label e' = edge_label e"
  by (cases s) (auto split: if_splits)

lemma edgeColumns_total:
  "length hs \<le> length schema \<Longrightarrow> SNull \<notin> set schema \<Longrightarrow> SUndef \<notin> set schema
     \<Longrightarrow> \<exists>e'. edgeColumns hs schema r e = Inr e'"
proof (induction hs schema r e rule: edgeColumns.induct)
  case (3 h hs s ss r e)
  from 3(3,4) obtain e1 where e1: "edgeColumn s (prop_get r h) e = Inr e1"
    using edgeColumn_total [of s "prop_get r h" e] by auto
  from "3.IH" [OF e1] 3(2,3,4) obtain e2 where "edgeColumns hs ss r e1 = Inr e2" by auto
  with e1 show ?case by simp
qed simp_all

lemma edgeColumns_id:
  "SStr ''id'' \<notin> set schema \<Longrightarrow> edgeColumns hs schema r e = Inr e' \<Longrightarrow> edge_id e' = edge_id e"
proof (induction hs schema r e rule: edgeColumns.induct)
  case (3 h hs s ss r e)
  then show ?case
    by (auto split: sum.splits dest: edgeColumn_id)
qed auto

lemma edgeColumns_label:
  "SStr ''label'' \<notin> set schema \<Longrightarrow> edgeColumns hs schema r e = Inr e'
     \<Longrightarrow> edge_label e' = edge_label e"
proof (induction hs schema r e rule: edgeColumns.induct)
  case (3 h hs s ss r e)
  then show ?case
    by (auto split: sum.splits dest: edgeColumn_label)
qed auto

lemma buildEdge_no_id:
  assumes "length hs \<le> length schema" "SNull \<notin> set schema" "SUndef \<notin> set schema"
    and "SStr ''id'' \<notin> set schema"
  shows "\<exists>e. buildEdge hs schema r idi = Inr (e, Suc idi)
            \<and> edge_id e = CStr (''e'' @ show_nat idi)
            \<and> (SStr ''label'' \<notin> set schema \<longrightarrow> edge_label e = edge_id e)"
proof -
  let ?e0 = "\<lparr>edge_id = CUndef, edge_label = CUndef, edge_source = CUndef, edge_target = CUndef,
              edge_type = None, edge_weight = None, edge_attributes = None, edge_viz = None\<rparr>"
  from edgeColumns_total [OF assms(1-3)] obtain e1 where e1: "edgeColumns hs schema r ?e0 = Inr e1"
    by blast
  from edgeColumns_id [OF assms(4) e1] have id1: "edge_id e1 = CUndef" by simp
  have "SStr ''label'' \<notin> set schema \<Longrightarrow> edge_label e1 = CUndef"
    using edgeColumns_label [OF _ e1] by simp
  with e1 id1 show ?thesis
    by (auto simp: buildEdge_def Let_def)
qed

lemma addEdges_loop_no_id:
  assumes "length hs \<le> length schema" "SNull \<notin> set schema" "SUndef \<notin> set schema"
    and "SStr ''id'' \<notin> set schema"
  shows "\<exists>es. addEdges_loop emit hs schema idi doc rs = Inr (doc @ es)
            \<and> map edge_id es = map (\<lambda>k. CStr (''e'' @ show_nat k)) [idi ..< idi + length rs]
            \<and> (SStr ''label'' \<notin> set schema \<longrightarrow> (\<forall>e \<in> set es. edge_label e = edge_id e))"
proof (induction rs arbitrary: idi doc)
  case Nil
  show ?case by simp
next
  case (Cons r rs)
  from buildEdge_no_id [OF assms, of r idi] obtain e where
    e: "buildEdge hs schema r idi = Inr (e, Suc idi)" "edge_id e = CStr (''e'' @ show_nat idi)"
       "SStr ''label'' \<notin> set schema \<longrightarrow> edge_label e = edge_id e"
    by blast
  from Cons.IH [of "Suc idi" "doc @ [e]"] obtain es where
    es: "addEdges_loop emit hs schema (Suc idi) (doc @ [e]) rs = Inr ((doc @ [e]) @ es)"
        "map edge_id es = map (\<lambda>k. CStr (''e'' @ show_nat k)) [Suc idi ..< Suc idi + length rs]"
        "SStr ''label'' \<notin> set schema \<longrightarrow> (\<forall>e \<in> set es. edge_label e = edge_id e)"
    by blast
  have "addEdges_loop emit hs schema idi doc (r # rs) = Inr (doc @ (e # es))"
    using e(1) es(1) by (simp add: emit_def)
  moreover have "map edge_id (e # es) = map (\<lambda>k. CStr (''e'' @ show_nat k)) [idi ..< idi + length (r # rs)]"
  proof -
    have u: "[idi ..< idi + length (r # rs)] = idi # [Suc idi ..< Suc idi + length rs]"
      by (simp add: upt_conv_Cons del: upt_Suc)
    show ?thesis
      by (simp only: u list.map e(2) es(2))
  qed
  moreover have "SStr ''label'' \<notin> set schema \<longrightarrow> (\<forall>x \<in> set (e # es). edge_label x = edge_id x)"
    using e(3) es(3) by simp
  ultimately show ?case by blast
qed

text \<open>
  Whatever the document layer, \<open>addEdges\<close> hands it the entries that \<open>addEdges\<close> emits
  into the layer that accepts everything, in the same order.
\<close>

lemma addEdges_loop_feed:
  "addEdges_loop emit hs schema idi doc rs = Inr out \<Longrightarrow>
     \<exists>es. out = doc @ es \<and> addEdges_loop addEdge hs schema idi g rs = feed addEdge g es"
proof (induction rs arbitrary: idi doc g)
  case Nil
  then show ?case by simp
next
  case (Cons r rs)
  from Cons.prems obtain p where p: "buildEdge hs schema r idi = Inr p"
    by (cases "buildEdge hs schema r idi") auto
  have em: "emit doc (fst p) = Inr (doc @ [fst p])" by (simp add: emit_def)
  from Cons.prems p em have rest: "addEdges_loop emit hs schema (snd p) (doc @ [fst p]) rs = Inr out"
    by simp
  show ?case
  proof (cases "addEdge g (fst p)")
    case (Inl x)
    from Cons.IH [OF rest, of g] obtain es where "out = (doc @ [fst p]) @ es" by blast
    with p Inl show ?thesis by (intro exI [of _ "fst p # es"]) simp
  next
    case (Inr g')
    from Cons.IH [OF rest, of g'] obtain es where
      es: "out = (doc @ [fst p]) @ es" "addEdges_loop addEdge hs schema (snd p) g' rs = feed addEdge g' es"
      by blast
    with p Inr show ?thesis by (intro exI [of _ "fst p # es"]) simp
  qed
qed

lemma addEdges_feed:
  "addEdges emit [] records schema = Inr es \<Longrightarrow>
     addEdges addEdge g records schema = feed addEdge g es"
proof (cases records)
  case Nil
  assume "addEdges emit [] records schema = Inr es"
  with Nil show ?thesis by (simp add: addEdges_def)
next
  case (Cons r0 rest)
  assume "addEdges emit [] records schema = Inr es"
  with Cons have "addEdges_loop emit (object_keys r0) schema 1 [] (r0 # rest) = Inr es"
    by (simp add: addEdges_def)
  from addEdges_loop_feed [OF this, of addEdge g] Cons show ?thesis
    by (simp add: addEdges_def)
qed

lemma addEdges_ids_run:
  assumes "length (object_keys r0) \<le> length schema"
    and "SNull \<notin> set schema" and "SUndef \<notin> set schema"
    and "SStr ''id'' \<notin> set schema"
  shows "\<exists>es. addEdges emit [] (r0 # rest) schema = Inr es
            \<and> map edge_id es = map (\<lambda>k. CStr (''e'' @ show_nat k)) [1 ..< Suc (length (r0 # rest))]
            \<and> distinct (map edge_id es)
            \<and> (SStr ''label'' \<notin> set schema \<longrightarrow> (\<forall>e \<in> set es. edge_label e = edge_id e))"
proof -
  from addEdges_loop_no_id [OF assms, of 1 "[]" "r0 # rest"] obtain es where
    es: "addEdges_loop emit (object_keys r0) schema 1 [] (r0 # rest) = Inr es"
        "map edge_id es = map (\<lambda>k. CStr (''e'' @ show_nat k)) [1 ..< 1 + length (r0 # rest)]"
        "SStr ''label'' \<notin> set schema \<longrightarrow> (\<forall>e \<in> set es. edge_label e = edge_id e)"
    by auto
  have "distinct (map (\<lambda>k. CStr (''e'' @ show_nat k)) [1 ..< 1 + length (r0 # rest)])"
    by (auto simp: distinct_map inj_on_def dest: show_nat_inj)
  with es show ?thesis
    by (simp add: addEdges_def)
qed

lemma addEdges_loop_records:
  assumes "length hs \<le> length schema" "SNull \<notin> set schema" "SUndef \<notin> set schema"
    and "SStr ''id'' \<notin> set schema"
  shows "addEdges_loop emit hs schema idi doc rs = Inr out \<Longrightarrow>
           \<exists>es. out = doc @ es \<and> length es = length rs
              \<and> (\<forall>k < length rs. buildEdge hs schema (rs ! k) (idi + k) = Inr (es ! k, Suc (idi + k)))"
proof (induction rs arbitrary: idi doc out)
  case Nil
  then show ?case by simp
next
  case (Cons r rs)
  from buildEdge_no_id [OF assms, of r idi] obtain e where
    e: "buildEdge hs schema r idi = Inr (e, Suc idi)" by blast
  have em: "emit doc e = Inr (doc @ [e])" by (simp add: emit_def)
  from Cons.prems e em have rest: "addEdges_loop emit hs schema (Suc idi) (doc @ [e]) rs = Inr out"
    by simp
  from Cons.IH [OF rest] obtain es where
    es: "out = (doc @ [e]) @ es" "length es = length rs"
        "\<forall>k < length rs. buildEdge hs schema (rs ! k) (Suc idi + k) = Inr (es ! k, Suc (Suc idi + k))"
    by blast
  show ?case
  proof (intro exI [of _ "e # es"] conjI allI impI)
    show "out = doc @ e # es" using es(1) by simp
    show "length (e # es) = length (r # rs)" using es(2) by simp
  next
    fix k assume "k < length (r # rs)"
    then show "buildEdge hs schema ((r # rs) ! k) (idi + k) = Inr ((e # es) ! k, Suc (idi + k))"
      using e es(3) by (cases k) auto
  qed
qed

text \<open>
  Claim C4. Let the edge schema have an element, neither \<open>null\<close> nor \<open>undefined\<close>, for every
  column, and no marker \<open>id\<close>. Then \<open>addEdges\<close> on \<open>n \<ge> 1\<close> records emits \<open>n\<close> edges,
  in input order: the \<open>k\<close>-th edge emitted (counting from 1) is the one the loop body builds
  from the \<open>k\<close>-th record with the counter at \<open>k\<close>, and its id is \<open>e\<close> followed by \<open>k\<close>.
  So the ids are \<open>e1\<close>, ..., \<open>en\<close>; they are pairwise distinct; and without a marker
  \<open>label\<close> the label of every edge is its id.
\<close>

theorem addEdges_synthesized_ids:
  assumes "length (object_keys r0) \<le> length schema"
    and "SNull \<notin> set schema" and "SUndef \<notin> set schema"
    and "SStr ''id'' \<notin> set schema"
  shows "\<exists>es. addEdges emit [] (r0 # rest) schema = Inr es
            \<and> length es = length (r0 # rest)
            \<and> (\<forall>k < length (r0 # rest).
                  buildEdge (object_keys r0) schema ((r0 # rest) ! k) (Suc k) = Inr (es ! k, Suc (Suc k))
                  \<and> edge_id (es ! k) = CStr (''e'' @ show_nat (Suc k)))
            \<and> map edge_id es = map (\<lambda>k. CStr (''e'' @ show_nat k)) [1 ..< Suc (length (r0 # rest))]
            \<and> distinct (map edge_id es)
            \<and> (SStr ''label'' \<notin> set schema \<longrightarrow> (\<forall>e \<in> set es. edge_label e = edge_id e))"
proof -
  from addEdges_ids_run [OF assms, of rest] obtain es where
    es: "addEdges emit [] (r0 # rest) schema = Inr es"
        "map edge_id es = map (\<lambda>k. CStr (''e'' @ show_nat k)) [1 ..< Suc (length (r0 # rest))]"
        "distinct (map edge_id es)"
        "SStr ''label'' \<notin> set schema \<longrightarrow> (\<forall>e \<in> set es. edge_label e = edge_id e)"
    by blast
  from es(1) have run: "addEdges_loop emit (object_keys r0) schema 1 [] (r0 # rest) = Inr es"
    by (simp add: addEdges_def)
  from addEdges_loop_records [OF assms run] have
    len: "length es = length (r0 # rest)"
    and rec: "\<forall>k < length (r0 # rest).
               buildEdge (object_keys r0) schema ((r0 # rest) ! k) (1 + k) = Inr (es ! k, Suc (1 + k))"
    by auto
  have ids: "edge_id (es ! k) = CStr (''e'' @ show_nat (Suc k))" if k: "k < length (r0 # rest)" for k
  proof -
    from buildEdge_no_id [OF assms, of "(r0 # rest) ! k" "Suc k"] obtain e where
      e: "buildEdge (object_keys r0) schema ((r0 # rest) ! k) (Suc k) = Inr (e, Suc (Suc k))"
         "edge_id e = CStr (''e'' @ show_nat (Suc k))"
      by blast
    from rec k e(1) have "es ! k = e" by simp
    with e(2) show ?thesis by simp
  qed
  from es len rec ids show ?thesis by auto
qed

theorem addEdges_synthesized_ids_witness:
  "\<exists>es. addEdges emit []
           [[(''from'', CStr ''a''), (''to'', CStr ''b'')],
            [(''from'', CStr ''b''), (''to'', CStr ''c'')],
            [(''from'', CStr ''c''), (''to'', CStr ''a'')]]
           [SStr ''source'', SStr ''target''] = Inr es
        \<and> map edge_id es = [CStr ''e1'', CStr ''e2'', CStr ''e3'']
        \<and> distinct (map edge_id es)
        \<and> map edge_label es = map edge_id es
        \<and> length es = 3
        \<and> edge_source (es ! 0) = CStr ''a'' \<and> edge_target (es ! 0) = CStr ''b''
        \<and> edge_source (es ! 1) = CStr ''b'' \<and> edge_target (es ! 1) = CStr ''c''
        \<and> edge_source (es ! 2) = CStr ''c'' \<and> edge_target (es ! 2) = CStr ''a''"
proof -
  let ?r0 = "[(''from'', CStr ''a''), (''to'', CStr ''b'')]"
  let ?rest = "[[(''from'', CStr ''b''), (''to'', CStr ''c'')], [(''from'', CStr ''c''), (''to'', CStr ''a'')]]"
  let ?S = "[SStr ''source'', SStr ''target'']"
  have "\<exists>es. addEdges emit [] (?r0 # ?rest) ?S = Inr es
            \<and> length es = length (?r0 # ?rest)
            \<and> (\<forall>k < length (?r0 # ?rest).
                  buildEdge (object_keys ?r0) ?S ((?r0 # ?rest) ! k) (Suc k) = Inr (es ! k, Suc (Suc k))
                  \<and> edge_id (es ! k) = CStr (''e'' @ show_nat (Suc k)))
            \<and> map edge_id es = map (\<lambda>k. CStr (''e'' @ show_nat k)) [1 ..< Suc (length (?r0 # ?rest))]
            \<and> distinct (map edge_id es)
            \<and> (SStr ''label'' \<notin> set ?S \<longrightarrow> (\<forall>e \<in> set es. edge_label e = edge_id e))"
    by (rule addEdges_synthesized_ids) (simp_all add: object_keys_def)
  then obtain es where
    run: "addEdges emit [] (?r0 # ?rest) ?S = Inr es"
    and len: "length es = length (?r0 # ?rest)"
    and rec: "\<forall>k < length (?r0 # ?rest).
                  buildEdge (object_keys ?r0) ?S ((?r0 # ?rest) ! k) (Suc k) = Inr (es ! k, Suc (Suc k))
                  \<and> edge_id (es ! k) = CStr (''e'' @ show_nat (Suc k))"
    and ids: "map edge_id es = map (\<lambda>k. CStr (''e'' @ show_nat k)) [1 ..< Suc (length (?r0 # ?rest))]"
    and dist: "distinct (map edge_id es)"
    and lab: "SStr ''label'' \<notin> set ?S \<longrightarrow> (\<forall>e \<in> set es. edge_label e = edge_id e)"
    by blast
  have b0: "buildEdge (object_keys ?r0) ?S ((?r0 # ?rest) ! 0) (Suc 0) = Inr (es ! 0, Suc (Suc 0))"
    using rec [rule_format, of 0] by simp
  have b1: "buildEdge (object_keys ?r0) ?S ((?r0 # ?rest) ! 1) (Suc 1) = Inr (es ! 1, Suc (Suc 1))"
    using rec [rule_format, of 1] by simp
  have b2: "buildEdge (object_keys ?r0) ?S ((?r0 # ?rest) ! 2) (Suc 2) = Inr (es ! 2, Suc (Suc 2))"
    using rec [rule_format, of 2] by simp
  have s0: "edge_source (es ! 0) = CStr ''a''" "edge_target (es ! 0) = CStr ''b''"
    using b0 [symmetric] by (simp_all add: buildEdge_def object_keys_def prop_get_def Let_def)
  have s1: "edge_source (es ! 1) = CStr ''b''" "edge_target (es ! 1) = CStr ''c''"
    using b1 [symmetric] by (simp_all add: buildEdge_def object_keys_def prop_get_def Let_def)
  have s2: "edge_source (es ! 2) = CStr ''c''" "edge_target (es ! 2) = CStr ''a''"
    using b2 [symmetric] by (simp_all add: buildEdge_def object_keys_def prop_get_def Let_def)
  have i: "map edge_id es = [CStr ''e1'', CStr ''e2'', CStr ''e3'']"
    using ids by (simp add: upt_rec show_nat.simps digit_def)
  have l: "map edge_label es = map edge_id es"
    using lab by simp
  have len3: "length es = 3" using len by simp
  show ?thesis
    by (intro exI [of _ es] conjI) (fact run i dist l len3 s0 s1 s2)+
qed


subsection \<open>Validation: defaults and idempotence\<close>

lemma checkSpec_valid:
  "valid_element k sp \<Longrightarrow> checkSpec k h sp = Inr (fill_defaults h sp)"
proof (cases sp)
  case (SStr s)
  assume "valid_element k sp"
  with SStr show ?thesis
    by (auto simp: valid_element_def fill_defaults_def nodeStringSpecs_def edgeStringSpecs_def
             split: if_splits)
next
  case (SObj ob)
  assume v: "valid_element k sp"
  show ?thesis
  proof (cases "spec_target ob = Some ''attributes''")
    case True
    with v SObj have "spec_type ob \<in> {Some ''string'', Some ''integer'', Some ''float'', Some ''boolean''}"
      by (simp add: valid_element_def)
    then have "\<not> indexOf_neg attributeTypes (spec_type ob)"
      by (auto simp: indexOf_neg_def attributeTypes_def)
    with True SObj show ?thesis
      by (cases "spec_id ob"; cases "spec_title ob") (simp_all add: fill_defaults_def Let_def)
  next
    case False
    with v SObj have viz: "spec_target ob = Some ''viz''"
      and ids: "if k then spec_id ob \<in> {Some ''color'', Some ''size'', Some ''shape''}
                else spec_id ob \<in> {Some ''color'', Some ''thickness'', Some ''shape''}"
      by (auto simp: valid_element_def split: if_splits)
    from ids have "if k then \<not> indexOf_neg nodeVizIds (spec_id ob)
                   else spec_id ob \<noteq> None \<and> \<not> indexOf_neg edgeVizIds (spec_id ob)"
      by (auto simp: indexOf_neg_def nodeVizIds_def edgeVizIds_def split: if_splits)
    with viz SObj show ?thesis
      by (simp add: fill_defaults_def split: if_splits)
  qed
qed (simp_all add: valid_element_def)

lemma checkColumns_valid:
  "length hs = length schema \<Longrightarrow> list_all (valid_element k) schema
     \<Longrightarrow> checkColumns k hs schema = Inr (map2 fill_defaults hs schema)"
  by (induction hs schema rule: list_induct2) (simp_all add: checkSpec_valid)

lemma fill_defaults_valid:
  "valid_element k sp \<Longrightarrow> valid_element k (fill_defaults h sp)"
  by (cases sp) (auto simp: valid_element_def fill_defaults_def Let_def split: if_splits)

lemma fill_defaults_idem:
  "fill_defaults h (fill_defaults h sp) = fill_defaults h sp"
  by (cases sp) (auto simp: fill_defaults_def Let_def split: option.splits)

lemma fill_defaults_marker:
  "fill_defaults h (SStr s) = SStr s"
  by (simp add: fill_defaults_def)

lemma marker_kept:
  "length hs = length schema \<Longrightarrow> SStr s \<in> set schema
     \<Longrightarrow> SStr s \<in> set (map2 fill_defaults hs schema)"
  by (induction hs schema rule: list_induct2) (auto simp: fill_defaults_marker)

lemma valid_kept:
  "length hs = length schema \<Longrightarrow> list_all (valid_element k) schema
     \<Longrightarrow> list_all (valid_element k) (map2 fill_defaults hs schema)"
  by (induction hs schema rule: list_induct2) (simp_all add: fill_defaults_valid)

lemma fill_twice:
  "length hs = length schema
     \<Longrightarrow> map2 fill_defaults hs (map2 fill_defaults hs schema) = map2 fill_defaults hs schema"
  by (induction hs schema rule: list_induct2) (simp_all add: fill_defaults_idem)

lemma checkSchema_valid:
  assumes "length (object_keys r0) = length schema" and "valid_schema k schema"
  shows "checkSchema (r0 # rest) schema k = Inr (map2 fill_defaults (object_keys r0) schema)"
  using assms unfolding valid_schema_def by (simp add: checkSchema_def checkColumns_valid split: if_splits)

lemma valid_schema_filled:
  assumes "length hs = length schema" and "valid_schema k schema"
  shows "valid_schema k (map2 fill_defaults hs schema)"
  using assms(2) marker_kept [OF assms(1)] valid_kept [OF assms(1), of k]
  unfolding valid_schema_def by (auto split: if_splits)

lemma fill_defaults_SObj: "fill_defaults x (SObj ob) = SObj (fill_obj x ob)"
  by (simp add: fill_defaults_def fill_obj_def Let_def)

lemma fill_defaults_other:
  "fill_defaults x (SStr s) = SStr s" "fill_defaults x SNull = SNull"
  "fill_defaults x (SPrim v t) = SPrim v t" "fill_defaults x SUndef = SUndef"
  by (simp_all add: fill_defaults_def)

lemma fill_obj_idem: "fill_obj y (fill_obj x ob) = fill_obj x ob"
  by (simp add: fill_obj_def Let_def split: option.splits)

lemma fill_obj_header_free:
  "\<not> (spec_target ob = Some ''attributes'' \<and> spec_id ob = None) \<Longrightarrow> fill_obj x ob = fill_obj y ob"
  by (auto simp: fill_obj_def Let_def split: option.splits)

lemma fill_obj_has_id:
  "\<not> (spec_target (fill_obj x ob) = Some ''attributes'' \<and> spec_id (fill_obj x ob) = None)"
  by (simp add: fill_obj_def Let_def)

lemma deref_SStr: "deref heap r = SStr s \<longleftrightarrow> r = RStr s"
  "SStr s = deref heap r \<longleftrightarrow> r = RStr s"
  by (cases r; auto)+

lemma checkSpec_ref_valid:
  assumes "valid_element k (deref heap r)"
  shows "checkSpec_ref k x r heap
           = Inr (case r of RObj a \<Rightarrow> heap(a := fill_obj x (heap a)) | _ \<Rightarrow> heap)"
  using checkSpec_valid [OF assms, of x]
  by (cases r) (simp_all add: checkSpec_ref_def fill_defaults_SObj fill_defaults_other)

lemma no_shared_default_mono:
  assumes "\<forall>a. spec_target (h1 a) = Some ''attributes'' \<and> spec_id (h1 a) = None
             \<longrightarrow> spec_target (h a) = Some ''attributes'' \<and> spec_id (h a) = None"
  shows "no_shared_default h rs \<Longrightarrow> no_shared_default h1 rs"
  using assms by (induction rs) (auto split: sref.splits)

lemma map2_pick:
  "length xs = length rs \<Longrightarrow> map f rs = map2 g xs (map f1 rs) \<Longrightarrow> r \<in> set rs
     \<Longrightarrow> \<exists>y. f r = g y (f1 r)"
  by (induction xs rs rule: list_induct2) auto

lemma map2_cong_set:
  "length xs = length rs \<Longrightarrow> \<forall>r \<in> set rs. \<forall>y. g y (f1 r) = g y (f r)
     \<Longrightarrow> map2 g xs (map f1 rs) = map2 g xs (map f rs)"
  by (induction xs rs rule: list_induct2) auto

lemma checkColumns_ref_valid:
  "length xs = length rs \<Longrightarrow> \<forall>r \<in> set rs. valid_element k (deref heap r)
     \<Longrightarrow> no_shared_default heap rs
     \<Longrightarrow> \<exists>heap'. checkColumns_ref k xs rs heap = Inr heap'
           \<and> map (deref heap') rs = map2 fill_defaults xs (map (deref heap) rs)
           \<and> (\<forall>a. RObj a \<notin> set rs \<longrightarrow> heap' a = heap a)"
proof (induction xs rs arbitrary: heap rule: list_induct2)
  case Nil
  then show ?case by simp
next
  case (Cons x xs r rs)
  define h1 where "h1 = (case r of RObj a \<Rightarrow> heap(a := fill_obj x (heap a)) | _ \<Rightarrow> heap)"
  have step: "checkSpec_ref k x r heap = Inr h1"
    unfolding h1_def using Cons.prems(1) by (intro checkSpec_ref_valid) simp
  have d1: "deref h1 r' = (if r' = r then fill_defaults x (deref heap r') else deref heap r')" for r'
    by (cases r; cases r') (auto simp: h1_def fill_defaults_SObj fill_defaults_other)
  have valid1: "\<forall>r' \<in> set rs. valid_element k (deref h1 r')"
    using Cons.prems(1) by (auto simp: d1 fill_defaults_valid)
  have bad1: "\<forall>a. spec_target (h1 a) = Some ''attributes'' \<and> spec_id (h1 a) = None
             \<longrightarrow> spec_target (heap a) = Some ''attributes'' \<and> spec_id (heap a) = None"
  proof (intro allI impI)
    fix a assume b: "spec_target (h1 a) = Some ''attributes'' \<and> spec_id (h1 a) = None"
    show "spec_target (heap a) = Some ''attributes'' \<and> spec_id (heap a) = None"
    proof (cases "r = RObj a")
      case True
      then have "h1 a = fill_obj x (heap a)" by (simp add: h1_def)
      with b fill_obj_has_id [of x "heap a"] show ?thesis by simp
    next
      case False
      then have "h1 a = heap a" by (cases r) (auto simp: h1_def)
      with b show ?thesis by simp
    qed
  qed
  have ns1: "no_shared_default h1 rs"
    using no_shared_default_mono [OF bad1] Cons.prems(2) by simp
  from Cons.IH [OF valid1 ns1] obtain h' where
    h': "checkColumns_ref k xs rs h1 = Inr h'"
        "map (deref h') rs = map2 fill_defaults xs (map (deref h1) rs)"
        "\<forall>a. RObj a \<notin> set rs \<longrightarrow> h' a = h1 a"
    by blast
  have run: "checkColumns_ref k (x # xs) (r # rs) heap = Inr h'"
    using step h'(1) by simp
  have head: "deref h' r = fill_defaults x (deref heap r)"
  proof (cases r)
    case (RObj a)
    show ?thesis
    proof (cases "RObj a \<in> set rs")
      case True
      from map2_pick [OF Cons.hyps h'(2) True] obtain y where
        "deref h' (RObj a) = fill_defaults y (deref h1 (RObj a))" by blast
      moreover have "h1 a = fill_obj x (heap a)" using RObj by (simp add: h1_def)
      ultimately show ?thesis
        using RObj by (simp add: fill_defaults_SObj fill_obj_idem)
    next
      case False
      with h'(3) have "h' a = h1 a" by blast
      then show ?thesis using RObj by (simp add: h1_def fill_defaults_SObj)
    qed
  qed (simp_all add: fill_defaults_other)
  have tail: "map2 fill_defaults xs (map (deref h1) rs) = map2 fill_defaults xs (map (deref heap) rs)"
  proof (rule map2_cong_set [OF Cons.hyps], intro ballI allI)
    fix r' y assume r': "r' \<in> set rs"
    show "fill_defaults y (deref h1 r') = fill_defaults y (deref heap r')"
    proof (cases "r' = r")
      case False
      then show ?thesis by (simp add: d1)
    next
      case True
      show ?thesis
      proof (cases r)
        case (RObj a)
        with True r' Cons.prems(2)
        have nb: "\<not> (spec_target (heap a) = Some ''attributes'' \<and> spec_id (heap a) = None)"
          by auto
        have "h1 a = fill_obj x (heap a)" using RObj by (simp add: h1_def)
        then show ?thesis
          using True RObj fill_obj_header_free [OF nb, of x y]
          by (simp add: fill_defaults_SObj fill_obj_idem)
      qed (simp_all add: True d1 fill_defaults_other)
    qed
  qed
  have frame: "\<forall>a. RObj a \<notin> set (r # rs) \<longrightarrow> h' a = heap a"
    using h'(3) by (cases r) (auto simp: h1_def)
  from run head tail h'(2) frame show ?case by auto
qed


lemma checkSchema_ref_valid:
  assumes len: "length (object_keys r0) = length schema"
    and valid: "valid_schema k (map (deref heap) schema)"
    and ns: "no_shared_default heap schema"
  shows "\<exists>heap'. checkSchema_ref (r0 # rest) schema heap k = Inr heap'
          \<and> map (deref heap') schema = map2 fill_defaults (object_keys r0) (map (deref heap) schema)
          \<and> checkSchema_ref (r0 # rest) schema heap' k = Inr heap'"
proof -
  let ?xs = "object_keys r0"
  from valid have ve: "\<forall>r \<in> set schema. valid_element k (deref heap r)"
    by (simp add: valid_schema_def list_all_iff)
  from valid have mk: "if k then RStr ''id'' \<in> set schema
                       else RStr ''source'' \<in> set schema \<and> RStr ''target'' \<in> set schema"
    by (auto simp: valid_schema_def deref_SStr split: if_splits)
  have pre: "checkSchema_ref (r0 # rest) schema h k = checkColumns_ref k ?xs schema h" for h
    using len mk by (simp add: checkSchema_ref_def split: if_splits)
  from checkColumns_ref_valid [OF len ve ns] obtain h' where
    h': "checkColumns_ref k ?xs schema heap = Inr h'"
        "map (deref h') schema = map2 fill_defaults ?xs (map (deref heap) schema)"
        "\<forall>a. RObj a \<notin> set schema \<longrightarrow> h' a = heap a"
    by blast
  have pick: "\<exists>y. h' a = fill_obj y (heap a)" if "RObj a \<in> set schema" for a
    using map2_pick [OF len h'(2) that] by (simp add: fill_defaults_SObj)
  have ve': "\<forall>r \<in> set schema. valid_element k (deref h' r)"
  proof
    fix r assume r: "r \<in> set schema"
    from map2_pick [OF len h'(2) r] obtain y where "deref h' r = fill_defaults y (deref heap r)"
      by blast
    with ve r show "valid_element k (deref h' r)" by (simp add: fill_defaults_valid)
  qed
  have bad: "\<forall>a. spec_target (h' a) = Some ''attributes'' \<and> spec_id (h' a) = None
             \<longrightarrow> spec_target (heap a) = Some ''attributes'' \<and> spec_id (heap a) = None"
  proof (intro allI impI)
    fix a assume b: "spec_target (h' a) = Some ''attributes'' \<and> spec_id (h' a) = None"
    show "spec_target (heap a) = Some ''attributes'' \<and> spec_id (heap a) = None"
    proof (cases "RObj a \<in> set schema")
      case True
      from pick [OF True] obtain y where "h' a = fill_obj y (heap a)" by blast
      with b fill_obj_has_id [of y "heap a"] show ?thesis by simp
    next
      case False
      with h'(3) b show ?thesis by simp
    qed
  qed
  have ns': "no_shared_default h' schema"
    by (rule no_shared_default_mono [OF bad ns])
  from checkColumns_ref_valid [OF len ve' ns'] obtain h'' where
    h'': "checkColumns_ref k ?xs schema h' = Inr h''"
         "map (deref h'') schema = map2 fill_defaults ?xs (map (deref h') schema)"
         "\<forall>a. RObj a \<notin> set schema \<longrightarrow> h'' a = h' a"
    by blast
  have "h'' a = h' a" for a
  proof (cases "RObj a \<in> set schema")
    case True
    from map2_pick [OF len h''(2) True] obtain y where y: "h'' a = fill_obj y (h' a)"
      by (auto simp: fill_defaults_SObj)
    from pick [OF True] obtain y0 where "h' a = fill_obj y0 (heap a)" by blast
    with y show ?thesis by (simp add: fill_obj_idem)
  next
    case False
    with h''(3) show ?thesis by simp
  qed
  then have "h'' = h'" by (rule ext)
  with h' h'' show ?thesis by (auto simp: pre)
qed




text \<open>
  On such a schema, reading the heap that \<open>checkSchema_ref\<close> leaves gives the schema that
  the by-value \<open>checkSchema\<close> returns.
\<close>

lemma checkSchema_ref_agrees:
  assumes "length (object_keys r0) = length schema"
    and "valid_schema k (map (deref heap) schema)"
    and "no_shared_default heap schema"
  shows "\<exists>heap'. checkSchema_ref (r0 # rest) schema heap k = Inr heap'
          \<and> checkSchema (r0 # rest) (map (deref heap) schema) k = Inr (map (deref heap') schema)"
proof -
  have l: "length (object_keys r0) = length (map (deref heap) schema)" using assms(1) by simp
  from checkSchema_ref_valid [OF assms] checkSchema_valid [OF l assms(2)]
  show ?thesis by metis
qed


text \<open>
  The checks before the loop do not look inside an element: on references they fail as
  they do by value.
\<close>

lemma checkSchema_ref_length_mismatch:
  assumes "length (object_keys r0) \<noteq> length schema"
  shows "checkSchema_ref (r0 # rest) schema heap isNodeSchema =
           Inl (Error (''There are '' @ show_nat (length (object_keys r0)) @ '' columns and ''
                       @ show_nat (length schema) @ '' schema elements in the ''
                       @ (if isNodeSchema then ''node'' else ''edge'')
                       @ '' schema. These numbers should be equal.''))"
  using assms by (simp add: checkSchema_ref_def ctxt_def)

lemma checkSchema_ref_required_markers:
  assumes "records \<noteq> []"
  shows "(RStr ''id'' \<notin> set schema \<longrightarrow> (\<exists>msg. checkSchema_ref records schema heap True = Inl (Error msg)))
       \<and> (RStr ''source'' \<notin> set schema \<or> RStr ''target'' \<notin> set schema
            \<longrightarrow> (\<exists>msg. checkSchema_ref records schema heap False = Inl (Error msg)))"
  using assms by (cases records) (auto simp: checkSchema_ref_def Let_def)

subsection \<open>The result of convert\<close>

lemma saveGexf_resolves_document: "saveGexf env gexfObj path \<noteq> Inr (Path p)"
  by (simp add: saveGexf_def split: sum.splits option.splits)

lemma convert_never_resolves_path: "convert env config \<noteq> Inr (Path p)"
  by (simp add: convert_def saveGexf_resolves_document split: sum.splits option.splits)

text \<open>
  Claim C5 (evaluation at the failing input). With \<open>saveAs\<close> set to \<open>result.gexf\<close> and
  every stage succeeding, \<open>convert\<close> resolves to the document object, not to the path:
  \<open>saveGexf\<close> ends in \<open>resolve(gexfObj)\<close>.
\<close>

theorem convert_saveAs_resolves_document:
  "convert demo_env (demo_config (Some ''result.gexf''))
     = Inr (Document
         ([\<lparr>node_id = CStr ''n1'', node_label = CStr ''Node One'', node_attributes = None, node_viz = None\<rparr>],
          [\<lparr>edge_id = CStr ''e1'', edge_label = CStr ''e1'', edge_source = CStr ''n1'', edge_target = CStr ''n1'',
            edge_type = None, edge_weight = None, edge_attributes = None, edge_viz = None\<rparr>]))
   \<and> convert demo_env (demo_config (Some ''result.gexf'')) \<noteq> Inr (Path ''result.gexf'')"
  by (simp add: convert_def demo_env_def demo_config_def loadCSV_def checkSchema_def parseValues_def
        createGexf_def saveGexf_def addNodes_def addEdges_def buildNode_def buildEdge_def
        object_keys_def prop_get_def nodeStringSpecs_def edgeStringSpecs_def
        show_nat.simps digit_def Let_def)


subsection \<open>Coercion of boolean columns\<close>

































subsection \<open>The target of structured elements after parseValues\<close>






















subsection \<open>The earlier revision\<close>

text \<open>
  The earlier revision leaves the first record as the parser delivered it, and gives every
  edge without an id column the same id: the number of columns plus one.
\<close>

lemma parseColumn_rev1_keeps_first:
  "parseColumn_rev1 (r0 # rest) header parseFn = Inr rs' \<Longrightarrow> rs' ! 0 = r0"
  by (auto simp: parseColumn_rev1_def split: sum.splits)

lemma addEdges_rev1_example:
  "addEdges_rev1 emit []
      [[(''from'', CStr ''a''), (''to'', CStr ''b'')],
       [(''from'', CStr ''b''), (''to'', CStr ''c'')],
       [(''from'', CStr ''c''), (''to'', CStr ''a'')]]
      [SStr ''source'', SStr ''target'']
   = Inr [\<lparr>edge_id = CStr ''e3'', edge_label = CStr ''e3'', edge_source = CStr ''b'', edge_target = CStr ''c'',
            edge_type = None, edge_weight = None, edge_attributes = None, edge_viz = None\<rparr>,
          \<lparr>edge_id = CStr ''e3'', edge_label = CStr ''e3'', edge_source = CStr ''c'', edge_target = CStr ''a'',
            edge_type = None, edge_weight = None, edge_attributes = None, edge_viz = None\<rparr>]"
  by (simp add: addEdges_rev1_def buildEdge_rev1_def object_keys_def prop_get_def emit_def
                show_nat.simps digit_def Let_def)

end
